theory Spec2Isabelle
  imports Complex_Main "HOL-Library.Word" "HOL-Library.Log_Nat"
begin

section \<open>Data model (frontend/src/types/tree.ts)\<close>

text \<open>
  A JavaScript string is a sequence of 16-bit code units. Literals of the source are
  written through \<open>js_str\<close>, which maps each ASCII character to its code unit.
\<close>

type_synonym js_string = "16 word list"

definition js_str :: "string \<Rightarrow> js_string" where
  "js_str s = map (\<lambda>c. of_nat (of_char c)) s"

text \<open>
  \<^verbatim>\<open>interface TreeNodeType { id; tree_id; path; name; data: string | null; children }\<close>.
  The field \<open>id\<close> is the selector \<open>id_n\<close> (\<open>id\<close> is the identity function of HOL);
  \<open>data\<close> is \<open>None\<close> for \<open>null\<close>.
\<close>

datatype TreeNodeType = TreeNodeType (id_n: int) (tree_id: int) (path: js_string)
  (name: js_string) (data: "js_string option") (children: "TreeNodeType list")

text \<open>
  \<^verbatim>\<open>interface TreeType { tree_id: number; root: TreeNodeType | null }\<close>; the selectors carry
  the suffix \<open>_t\<close> (\<open>tree_id\<close> is a field of the node, \<open>root\<close> a function of HOL).
\<close>

datatype TreeType = TreeType (tree_id_t: int) (root_t: "TreeNodeType option")

text \<open>
  The values the client builds and serialises with \<open>JSON.stringify\<close>: an object is the
  list of its properties in insertion order.
\<close>

datatype js_value = JNull | JNumber int | JString js_string | JArray "js_value list"
  | JObject "(string \<times> js_value) list"

datatype js_error = TypeError | URIError

text \<open>A field of type \<open>string | null\<close> read into a value.\<close>

definition js_nullable :: "js_string option \<Rightarrow> js_value" where
  "js_nullable d = (case d of None \<Rightarrow> JNull | Some s \<Rightarrow> JString s)"

definition has_key :: "string \<Rightarrow> js_value \<Rightarrow> bool" where
  "has_key k v = (case v of JObject kvs \<Rightarrow> k \<in> set (map fst kvs) | _ \<Rightarrow> False)"

section \<open>The export transformation (TreeManager.tsx, TreeView)\<close>

text \<open>
  \<^verbatim>\<open>
  const renderTree = (node) => {
    return {
      name: node.name,
      ...(node.children && node.children.length > 0
        ? { children: node.children.map((child) => renderTree(child)) }
        : { data: node.data }),
    };
  };
  \<close>
  On a node, \<open>node.children\<close> is an array, which is truthy also when empty, so the
  condition is \<open>node.children.length > 0\<close>.
\<close>

fun renderTree :: "TreeNodeType \<Rightarrow> js_value" where
  "renderTree (TreeNodeType i t p n d cs) =
     JObject ((''name'', JString n) #
       (if length cs > 0
        then [(''children'', JArray (map renderTree cs))]
        else [(''data'', js_nullable d)]))"

text \<open>
  \<open>TreeView\<close> calls \<open>renderTree(tree.root)\<close>, and \<open>tree.root\<close> may be \<open>null\<close>: reading
  \<open>node.name\<close> of \<open>null\<close> throws a \<open>TypeError\<close>.
\<close>

definition renderTree_arg :: "TreeNodeType option \<Rightarrow> js_error + js_value" where
  "renderTree_arg a = (case a of None \<Rightarrow> Inl TypeError | Some node \<Rightarrow> Inr (renderTree node))"

text \<open>
  \<^verbatim>\<open><p>{JSON.stringify(renderTree(tree.root), null, 2)}</p>\<close>: the result is the value
  whose JSON text the paragraph shows, or the error thrown while rendering.
\<close>

definition TreeView :: "TreeType \<Rightarrow> js_error + js_value" where
  "TreeView tree = renderTree_arg (root_t tree)"

text \<open>
  The listing of \<open>TreeManager\<close>: for each tree its heading number (\<open>index + 1\<close>), the
  node editor (\<^verbatim>\<open>tree.root && <TreeNode node={tree.root} .../>\<close>, present only for a
  non-null root) and the export value of \<open>TreeView\<close>. An error thrown by one \<open>TreeView\<close>
  is the error of the whole render.
\<close>

datatype tree_entry = tree_entry (heading: nat) (editor: "TreeNodeType option")
  (export_value: js_value)

fun renderTrees :: "nat \<Rightarrow> TreeType list \<Rightarrow> js_error + tree_entry list" where
  "renderTrees index [] = Inr []"
| "renderTrees index (tree # trees) =
     (case TreeView tree of
        Inl e \<Rightarrow> Inl e
      | Inr v \<Rightarrow>
          (case renderTrees (index + 1) trees of
             Inl e \<Rightarrow> Inl e
           | Inr es \<Rightarrow> Inr (tree_entry (index + 1) (root_t tree) v # es)))"

subsection \<open>Reading an exported value back\<close>

text \<open>
  The specification's exported value: \<open>Value = Leaf{name, data} | Internal{name, children}\<close>.
  \<open>readBack\<close> reads a rendered object into it, and \<open>stored_shape\<close> is what the
  specification expects to find there: the stored data at the leaves, the stored
  child order at the internal nodes.
\<close>

datatype Value = Leaf js_string "js_string option" | Internal js_string "Value list"

fun readBack :: "js_value \<Rightarrow> Value option" where
  "readBack (JObject [(k1, JString n), (k2, JArray vs)]) =
     (if k1 = ''name'' \<and> k2 = ''children''
      then map_option (Internal n) (those (map readBack vs)) else None)"
| "readBack (JObject [(k1, JString n), (k2, JNull)]) =
     (if k1 = ''name'' \<and> k2 = ''data'' then Some (Leaf n None) else None)"
| "readBack (JObject [(k1, JString n), (k2, JString s)]) =
     (if k1 = ''name'' \<and> k2 = ''data'' then Some (Leaf n (Some s)) else None)"
| "readBack _ = None"

fun stored_shape :: "TreeNodeType \<Rightarrow> Value" where
  "stored_shape (TreeNodeType i t p n d cs) =
     (if cs = [] then Leaf n d else Internal n (map stored_shape cs))"

section \<open>The export transformation on the object store\<close>

text \<open>
  To state that \<open>renderTree\<close> changes nothing and that its result depends on the node
  alone, the function is embedded a second time, over the store of JavaScript objects
  it runs in. An object is the list of its properties. A property holds \<open>undefined\<close>,
  \<open>null\<close>, a string, a number or an array of references to objects. The store is the
  list of its objects, a reference is a position in it, and a new object is appended.
  A reference outside the store stands for \<open>null\<close>.
\<close>

type_synonym addr = nat

datatype field = FUndefined | FNull | FString js_string | FNumber int | FArray "addr list"

type_synonym object = "(string \<times> field) list"

type_synonym store = "object list"

definition deref :: "store \<Rightarrow> addr \<Rightarrow> object option" where
  "deref h a = (if a < length h then Some (h ! a) else None)"

text \<open>Reading the property \<open>k\<close> of an object: \<open>undefined\<close> when it has none.\<close>

definition get :: "object \<Rightarrow> string \<Rightarrow> field" where
  "get obj k = (case map_of obj k of Some f \<Rightarrow> f | None \<Rightarrow> FUndefined)"

definition alloc :: "store \<Rightarrow> object \<Rightarrow> addr \<times> store" where
  "alloc h obj = (length h, h @ [obj])"

text \<open>
  \<^verbatim>\<open>array.map((child) => f(child))\<close>: the callback is applied to the elements in index
  order, each call in the store the one before left; the first error ends the loop,
  and a call that does not return leaves the loop without a result.
\<close>

fun array_map ::
  "(store \<Rightarrow> addr \<Rightarrow> (js_error + addr \<times> store) option) \<Rightarrow> store \<Rightarrow> addr list \<Rightarrow>
   (js_error + addr list \<times> store) option" where
  "array_map f h [] = Some (Inr ([], h))"
| "array_map f h (c # cs) =
     (case f h c of
        None \<Rightarrow> None
      | Some (Inl e) \<Rightarrow> Some (Inl e)
      | Some (Inr (r, h1)) \<Rightarrow>
          (case array_map f h1 cs of
             None \<Rightarrow> None
           | Some (Inl e) \<Rightarrow> Some (Inl e)
           | Some (Inr (rs, h2)) \<Rightarrow> Some (Inr (r # rs, h2))))"

text \<open>
  \<open>renderTree\<close> on the store, with the number of nested calls it may make (\<open>None\<close> when
  they do not suffice).
  \<^item> \<open>node.name\<close> of \<open>null\<close> throws a \<open>TypeError\<close>.
  \<^item> \<^verbatim>\<open>node.children && node.children.length > 0\<close> holds for a non-empty array. It
    also holds for a non-empty string, and then \<open>node.children.map\<close> is not a function
    (\<open>TypeError\<close>). It fails for \<open>undefined\<close>, \<open>null\<close>, the empty string, a number
    (whose \<open>length\<close> is \<open>undefined\<close>) and the empty array.
  \<^item> The object returned is \<open>{name, children}\<close> with the array \<open>map\<close> returns, or
    \<open>{name, data}\<close>; it is allocated when it is complete. The object of the spread
    operand is not kept: nothing refers to it after the copy.
\<close>

fun renderTree_store :: "nat \<Rightarrow> store \<Rightarrow> addr \<Rightarrow> (js_error + addr \<times> store) option" where
  "renderTree_store 0 h a = None"
| "renderTree_store (Suc depth) h a =
     (case deref h a of
        None \<Rightarrow> Some (Inl TypeError)
      | Some node \<Rightarrow>
          let leaf = Some (Inr (alloc h [(''name'', get node ''name''), (''data'', get node ''data'')]))
          in case get node ''children'' of
               FArray cs \<Rightarrow>
                 if length cs > 0 then
                   (case array_map (renderTree_store depth) h cs of
                      None \<Rightarrow> None
                    | Some (Inl e) \<Rightarrow> Some (Inl e)
                    | Some (Inr (rs, h1)) \<Rightarrow>
                        Some (Inr (alloc h1 [(''name'', get node ''name''), (''children'', FArray rs)])))
                 else leaf
             | FString s \<Rightarrow> if s = [] then leaf else Some (Inl TypeError)
             | _ \<Rightarrow> leaf)"

text \<open>
  The store \<open>h\<close> holds the node \<open>node\<close> at \<open>a\<close>: the object there has the fields of
  \<open>TreeNodeType\<close> with the values of \<open>node\<close>, and its \<open>children\<close> array refers to the
  objects that hold the children, in order.
\<close>

fun node_at :: "store \<Rightarrow> addr \<Rightarrow> TreeNodeType \<Rightarrow> bool" where
  "node_at h a (TreeNodeType i t p n d cs) =
     (case deref h a of
        None \<Rightarrow> False
      | Some obj \<Rightarrow>
          get obj ''id'' = FNumber i \<and> get obj ''tree_id'' = FNumber t
          \<and> get obj ''path'' = FString p \<and> get obj ''name'' = FString n
          \<and> get obj ''data'' = (case d of None \<Rightarrow> FNull | Some s \<Rightarrow> FString s)
          \<and> (case get obj ''children'' of
                FArray as \<Rightarrow> list_all2 (node_at h) as cs
              | _ \<Rightarrow> False))"

text \<open>
  The store \<open>h\<close> holds the value \<open>v\<close> at \<open>a\<close>: the object there has the properties of
  \<open>v\<close>, in order, and each array refers to objects that hold the elements.
\<close>

fun value_at :: "store \<Rightarrow> addr \<Rightarrow> js_value \<Rightarrow> bool"
  and field_at :: "store \<Rightarrow> field \<Rightarrow> js_value \<Rightarrow> bool" where
  "value_at h a (JObject kvs) =
     (case deref h a of
        None \<Rightarrow> False
      | Some obj \<Rightarrow> list_all2 (\<lambda>kf kv. fst kf = fst kv \<and> field_at h (snd kf) (snd kv)) obj kvs)"
| "value_at h a v = False"
| "field_at h FNull JNull = True"
| "field_at h (FString s) (JString s') = (s = s')"
| "field_at h (FNumber n) (JNumber n') = (n = n')"
| "field_at h (FArray as) (JArray vs) = list_all2 (value_at h) as vs"
| "field_at h f v = False"

text \<open>The nested calls \<open>renderTree\<close> makes on a node: the height of the tree.\<close>

fun depth_of :: "TreeNodeType \<Rightarrow> nat" where
  "depth_of (TreeNodeType i t p n d cs) = Suc (Max (set (0 # map depth_of cs)))"

section \<open>The node editor (TreeNode.tsx)\<close>

subsection \<open>Strings: \<open>trim\<close>\<close>

text \<open>
  \<open>String.prototype.trim\<close> removes leading and trailing white space and line
  terminators: TAB, LF, VT, FF, CR, SP, NBSP, U+1680, U+2000 to U+200A, U+2028, U+2029,
  U+202F, U+205F, U+3000 and U+FEFF, each a single code unit.
\<close>

definition isWhiteSpace :: "16 word \<Rightarrow> bool" where
  "isWhiteSpace c =
     (c \<in> {0x9, 0xA, 0xB, 0xC, 0xD, 0x20, 0xA0, 0x1680, 0x2028, 0x2029, 0x202F, 0x205F,
            0x3000, 0xFEFF}
      \<or> (0x2000 \<le> c \<and> c \<le> 0x200A))"

definition trim :: "js_string \<Rightarrow> js_string" where
  "trim s = rev (dropWhile isWhiteSpace (rev (dropWhile isWhiteSpace s)))"

subsection \<open>Requests and effects\<close>

text \<open>
  The requests the client sends with \<open>fetch\<close>:
  \<^item> \<open>POST_root treeId name\<close>: \<^verbatim>\<open>POST /trees/${treeId}/root?name=${encodeURIComponent(name)}\<close>;
  \<^item> \<open>POST_nodes treeId body\<close>: \<^verbatim>\<open>POST /trees/${treeId}/nodes\<close> with the JSON of \<open>body\<close>;
  \<^item> \<open>PATCH_nodes id body\<close>: \<^verbatim>\<open>PATCH /nodes/${id}\<close> with the JSON of \<open>body\<close>;
  \<^item> \<open>DELETE_nodes treeId path\<close>: \<^verbatim>\<open>DELETE /nodes/${treeId}/${path}\<close>;
  \<^item> \<open>GET_trees\<close>: \<^verbatim>\<open>GET /trees\<close>.

  A handler's effects are the requests it sends, in order, and its calls of the
  \<open>reload\<close> callback or of \<open>loadTrees\<close>.
\<close>

datatype request =
    POST_root int js_string
  | POST_nodes int js_value
  | PATCH_nodes int js_value
  | DELETE_nodes int js_string
  | GET_trees

datatype effect = Fetch request | Reload | LoadTrees

subsection \<open>Component state\<close>

text \<open>
  The \<open>useState\<close> variables of \<open>TreeNode\<close>; \<open>open\<close> and \<open>name\<close> carry the suffix \<open>_s\<close>.
  \<open>dataValue\<close> starts as \<^verbatim>\<open>node.data ?? ""\<close>.
\<close>

record TreeNodeState =
  open_s :: bool
  editing :: bool
  name_s :: js_string
  showDeleteDialog :: bool
  showAddDialog :: bool
  showEditDialog :: bool
  childName :: js_string
  childDataValue :: js_string
  dataValue :: js_string

definition nullish_empty :: "js_string option \<Rightarrow> js_string" where
  "nullish_empty d = (case d of None \<Rightarrow> [] | Some s \<Rightarrow> s)"

definition initialState :: "TreeNodeType \<Rightarrow> TreeNodeState" where
  "initialState node =
     \<lparr>open_s = True, editing = False, name_s = name node, showDeleteDialog = False,
      showAddDialog = False, showEditDialog = False, childName = [], childDataValue = [],
      dataValue = nullish_empty (data node)\<rparr>"

subsection \<open>Handlers\<close>

text \<open>
  Each handler takes the props \<open>node\<close> and \<open>treeId\<close>, whether the awaited \<open>fetch\<close>
  resolves (\<open>ok\<close>; it rejects on a network failure only, and then the rest of the
  handler does not run), and the state; it returns its effects and the new state.

  \<^verbatim>\<open>
  async function handleAddChild(e) {
    e.preventDefault();
    if (!childName.trim()) return;
    await fetch(`${API}/trees/${treeId}/nodes`, { method: "POST", ...,
      body: JSON.stringify({ parent_id: node.id, name: childName, data: childDataValue }) });
    setShowAddDialog(false);
    setChildName("");
    reload();
  }
  \<close>
\<close>

definition handleAddChild ::
  "TreeNodeType \<Rightarrow> int \<Rightarrow> bool \<Rightarrow> TreeNodeState \<Rightarrow> effect list \<times> TreeNodeState" where
  "handleAddChild node treeId ok s =
     (if trim (childName s) = [] then ([], s)
      else
        let req = POST_nodes treeId
              (JObject [(''parent_id'', JNumber (id_n node)),
                        (''name'', JString (childName s)),
                        (''data'', JString (childDataValue s))])
        in if ok then ([Fetch req, Reload], s\<lparr>showAddDialog := False, childName := []\<rparr>)
           else ([Fetch req], s))"

text \<open>
  \<^verbatim>\<open>
  async function handleUpdateData(e) {
    e.preventDefault();
    await fetch(`${API}/nodes/${node.id}`, { method: "PATCH", ...,
      body: JSON.stringify({ data: dataValue }) });
    setShowEditDialog(false);
    reload();
  }
  \<close>
\<close>

definition handleUpdateData ::
  "TreeNodeType \<Rightarrow> int \<Rightarrow> bool \<Rightarrow> TreeNodeState \<Rightarrow> effect list \<times> TreeNodeState" where
  "handleUpdateData node treeId ok s =
     (let req = PATCH_nodes (id_n node) (JObject [(''data'', JString (dataValue s))])
      in if ok then ([Fetch req, Reload], s\<lparr>showEditDialog := False\<rparr>)
         else ([Fetch req], s))"

text \<open>
  \<^verbatim>\<open>
  async function handleDeleteNode() {
    await fetch(`${API}/nodes/${treeId}/${node.path}`, { method: "DELETE" });
    setShowDeleteDialog(false);
    reload();
  }
  \<close>
\<close>

definition handleDeleteNode ::
  "TreeNodeType \<Rightarrow> int \<Rightarrow> bool \<Rightarrow> TreeNodeState \<Rightarrow> effect list \<times> TreeNodeState" where
  "handleDeleteNode node treeId ok s =
     (let req = DELETE_nodes treeId (path node)
      in if ok then ([Fetch req, Reload], s\<lparr>showDeleteDialog := False\<rparr>)
         else ([Fetch req], s))"

text \<open>
  \<^verbatim>\<open>
  async function handleNameUpdate() {
    if (!name.trim()) { setName(node.name); setEditing(false); return; }
    if (name !== node.name) {
      await fetch(`${API}/nodes/${node.id}`, { method: "PATCH", ...,
        body: JSON.stringify({ name }) });
      reload();
    }
    setEditing(false);
  }
  \<close>
\<close>

definition handleNameUpdate ::
  "TreeNodeType \<Rightarrow> int \<Rightarrow> bool \<Rightarrow> TreeNodeState \<Rightarrow> effect list \<times> TreeNodeState" where
  "handleNameUpdate node treeId ok s =
     (if trim (name_s s) = [] then ([], s\<lparr>name_s := name node, editing := False\<rparr>)
      else if name_s s \<noteq> name node then
        let req = PATCH_nodes (id_n node) (JObject [(''name'', JString (name_s s))])
        in if ok then ([Fetch req, Reload], s\<lparr>editing := False\<rparr>)
           else ([Fetch req], s)
      else ([], s\<lparr>editing := False\<rparr>))"

text \<open>
  The name the component shows: the input holding the state \<open>name\<close> while editing,
  the label \<open>node.name\<close> otherwise.
\<close>

definition displayedName :: "TreeNodeType \<Rightarrow> TreeNodeState \<Rightarrow> js_string" where
  "displayedName node s = (if editing s then name_s s else name node)"

subsection \<open>Events\<close>

text \<open>
  The events of the rendered elements, with the value typed or the key pressed. The
  three dialogs each have \<open>onOpenChange\<close>, their inputs, a submit or confirm and a
  cancel button.
\<close>

datatype event =
    ToggleOpen
  | NameDoubleClick
  | NameChange js_string
  | NameBlur
  | NameKeyDown js_string
  | AddChildClick
  | EditDataClick
  | DeleteClick
  | AddDialogOpenChange bool
  | ChildNameChange js_string
  | ChildDataChange js_string
  | AddDialogSubmit
  | AddDialogCancel
  | EditDialogOpenChange bool
  | DataChange js_string
  | EditDialogSubmit
  | EditDialogCancel
  | DeleteDialogOpenChange bool
  | DeleteDialogConfirm
  | DeleteDialogCancel

text \<open>
  An event can happen when its element is rendered: the name input while \<open>editing\<close>
  and the label otherwise, the \<open>Edit Data\<close> button under
  \<^verbatim>\<open>node.children.length === 0 && ...\<close>, and the content of a dialog while its
  \<open>open\<close> property holds. The dialog components (\<open>components/ui/dialog\<close> and
  \<open>alert-dialog\<close>) are not among the sources; they are taken to render their
  content, and to call \<open>onOpenChange\<close>, only while open.
\<close>

fun offered :: "TreeNodeType \<Rightarrow> TreeNodeState \<Rightarrow> event \<Rightarrow> bool" where
  "offered node s ToggleOpen = True"
| "offered node s NameDoubleClick = (\<not> editing s)"
| "offered node s (NameChange v) = editing s"
| "offered node s NameBlur = editing s"
| "offered node s (NameKeyDown k) = editing s"
| "offered node s AddChildClick = True"
| "offered node s EditDataClick = (length (children node) = 0)"
| "offered node s DeleteClick = True"
| "offered node s (AddDialogOpenChange b) = showAddDialog s"
| "offered node s (ChildNameChange v) = showAddDialog s"
| "offered node s (ChildDataChange v) = showAddDialog s"
| "offered node s AddDialogSubmit = showAddDialog s"
| "offered node s AddDialogCancel = showAddDialog s"
| "offered node s (EditDialogOpenChange b) = showEditDialog s"
| "offered node s (DataChange v) = showEditDialog s"
| "offered node s EditDialogSubmit = showEditDialog s"
| "offered node s EditDialogCancel = showEditDialog s"
| "offered node s (DeleteDialogOpenChange b) = showDeleteDialog s"
| "offered node s DeleteDialogConfirm = showDeleteDialog s"
| "offered node s DeleteDialogCancel = showDeleteDialog s"

text \<open>The event handlers of the JSX, one equation per \<open>onClick\<close>, \<open>onChange\<close>, ...\<close>

fun handle ::
  "TreeNodeType \<Rightarrow> int \<Rightarrow> bool \<Rightarrow> event \<Rightarrow> TreeNodeState \<Rightarrow> effect list \<times> TreeNodeState" where
  "handle node treeId ok ToggleOpen s = ([], s\<lparr>open_s := \<not> open_s s\<rparr>)"
| "handle node treeId ok NameDoubleClick s = ([], s\<lparr>editing := True\<rparr>)"
| "handle node treeId ok (NameChange v) s = ([], s\<lparr>name_s := v\<rparr>)"
| "handle node treeId ok NameBlur s = handleNameUpdate node treeId ok s"
| "handle node treeId ok (NameKeyDown k) s =
     (let (effs, s1) = (if k = js_str ''Enter'' then handleNameUpdate node treeId ok s
                        else ([], s))
      in if k = js_str ''Escape'' then (effs, s1\<lparr>name_s := name node, editing := False\<rparr>)
         else (effs, s1))"
| "handle node treeId ok AddChildClick s = ([], s\<lparr>showAddDialog := True\<rparr>)"
| "handle node treeId ok EditDataClick s =
     ([], s\<lparr>dataValue := nullish_empty (data node), showEditDialog := True\<rparr>)"
| "handle node treeId ok DeleteClick s = ([], s\<lparr>showDeleteDialog := True\<rparr>)"
| "handle node treeId ok (AddDialogOpenChange b) s = ([], s\<lparr>showAddDialog := b\<rparr>)"
| "handle node treeId ok (ChildNameChange v) s = ([], s\<lparr>childName := v\<rparr>)"
| "handle node treeId ok (ChildDataChange v) s = ([], s\<lparr>childDataValue := v\<rparr>)"
| "handle node treeId ok AddDialogSubmit s = handleAddChild node treeId ok s"
| "handle node treeId ok AddDialogCancel s = ([], s\<lparr>showAddDialog := False\<rparr>)"
| "handle node treeId ok (EditDialogOpenChange b) s = ([], s\<lparr>showEditDialog := b\<rparr>)"
| "handle node treeId ok (DataChange v) s = ([], s\<lparr>dataValue := v\<rparr>)"
| "handle node treeId ok EditDialogSubmit s = handleUpdateData node treeId ok s"
| "handle node treeId ok EditDialogCancel s = ([], s\<lparr>showEditDialog := False\<rparr>)"
| "handle node treeId ok (DeleteDialogOpenChange b) s = ([], s\<lparr>showDeleteDialog := b\<rparr>)"
| "handle node treeId ok DeleteDialogConfirm s = handleDeleteNode node treeId ok s"
| "handle node treeId ok DeleteDialogCancel s = ([], s\<lparr>showDeleteDialog := False\<rparr>)"

text \<open>
  One step of a mounted component: an event whose element is not rendered does not
  happen. A run is a sequence of events in which the component keeps the \<open>node\<close> it
  was mounted with and the \<open>fetch\<close> a handler awaits settles, with the outcome given,
  before the next event. Sessions, below, drop both restrictions.
\<close>

definition step ::
  "TreeNodeType \<Rightarrow> int \<Rightarrow> event \<times> bool \<Rightarrow> TreeNodeState \<Rightarrow> effect list \<times> TreeNodeState" where
  "step node treeId eo s =
     (if offered node s (fst eo) then handle node treeId (snd eo) (fst eo) s else ([], s))"

fun run ::
  "TreeNodeType \<Rightarrow> int \<Rightarrow> (event \<times> bool) list \<Rightarrow> TreeNodeState \<Rightarrow> effect list \<times> TreeNodeState" where
  "run node treeId [] s = ([], s)"
| "run node treeId (eo # eos) s =
     (let (effs, s1) = step node treeId eo s;
          (effs', s2) = run node treeId eos s1
      in (effs @ effs', s2))"

text \<open>A request that sets the data of a node: a \<open>PATCH\<close> whose body has a \<open>data\<close> key.\<close>

fun data_update :: "effect \<Rightarrow> bool" where
  "data_update (Fetch (PATCH_nodes i body)) = has_key ''data'' body"
| "data_update _ = False"

text \<open>
  The invariant of a run, in which the node stays the same: the edit dialog is open
  only on a node without children.
\<close>

definition edit_guard :: "TreeNodeType \<Rightarrow> TreeNodeState \<Rightarrow> bool" where
  "edit_guard node s = (showEditDialog s \<longrightarrow> children node = [])"

subsection \<open>Sessions of a mounted component\<close>

text \<open>
  In the code the statements of a handler after its \<open>await\<close> run when the \<open>fetch\<close>
  resolves, and other events can happen before that. What is left of a handler after
  the \<open>await\<close>:
  \<^item> \<open>handleAddChild\<close>: \<^verbatim>\<open>setShowAddDialog(false); setChildName(""); reload();\<close>
  \<^item> \<open>handleUpdateData\<close>: \<^verbatim>\<open>setShowEditDialog(false); reload();\<close>
  \<^item> \<open>handleDeleteNode\<close>: \<^verbatim>\<open>setShowDeleteDialog(false); reload();\<close>
  \<^item> \<open>handleNameUpdate\<close>: \<^verbatim>\<open>reload(); setEditing(false);\<close>
\<close>

datatype continuation = AfterAddChild | AfterUpdateData | AfterDeleteNode | AfterNameUpdate

fun resume :: "continuation \<Rightarrow> TreeNodeState \<Rightarrow> effect list \<times> TreeNodeState" where
  "resume AfterAddChild s = ([Reload], s\<lparr>showAddDialog := False, childName := []\<rparr>)"
| "resume AfterUpdateData s = ([Reload], s\<lparr>showEditDialog := False\<rparr>)"
| "resume AfterDeleteNode s = ([Reload], s\<lparr>showDeleteDialog := False\<rparr>)"
| "resume AfterNameUpdate s = ([Reload], s\<lparr>editing := False\<rparr>)"

text \<open>The handler an event calls that awaits a \<open>fetch\<close>, if any.\<close>

fun awaited :: "event \<Rightarrow> continuation option" where
  "awaited NameBlur = Some AfterNameUpdate"
| "awaited (NameKeyDown k) = Some AfterNameUpdate"
| "awaited AddDialogSubmit = Some AfterAddChild"
| "awaited EditDialogSubmit = Some AfterUpdateData"
| "awaited DeleteDialogConfirm = Some AfterDeleteNode"
| "awaited _ = None"

text \<open>
  A mounted component: the \<open>node\<close> prop it holds now, its state, and the continuations
  of the handlers whose \<open>fetch\<close> has not settled yet, oldest first.
\<close>

record component =
  node_p :: TreeNodeType
  state_p :: TreeNodeState
  pending :: "continuation list"


text \<open>
  What happens to a mounted component:
  \<^item> \<open>User ev\<close>: an event of a rendered element;
  \<^item> \<open>Props node\<close>: the parent renders again with another value of the node. \<open>loadTrees\<close>
    has no guard against overlapping calls: when one call has finished and cleared
    \<open>loading\<close> and \<open>isUpdating\<close>, the list is mounted, and a call that finishes later
    replaces \<open>trees\<close> under it. The elements are keyed by \<open>tree_id\<close> and by the node's
    \<open>id\<close>, so the component and its state are kept and receive the new node;
  \<^item> \<open>Settle i ok\<close>: the \<open>fetch\<close> of the pending continuation at position \<open>i\<close> resolves
    (\<open>ok\<close>) or rejects.
\<close>

datatype action = User event | Props TreeNodeType | Settle nat bool

text \<open>
  The dialog components are not among the sources, so they are a parameter: \<open>dialog b\<close>
  tells whether a dialog whose \<open>open\<close> property is \<open>b\<close> renders its content and can
  call \<open>onOpenChange\<close>. \<open>offered\<close> is the case of a dialog that does so exactly while
  open.
\<close>

definition available ::
  "(bool \<Rightarrow> bool) \<Rightarrow> TreeNodeType \<Rightarrow> TreeNodeState \<Rightarrow> event \<Rightarrow> bool" where
  "available dialog node s ev =
     offered node
       (s\<lparr>showDeleteDialog := dialog (showDeleteDialog s),
          showAddDialog := dialog (showAddDialog s),
          showEditDialog := dialog (showEditDialog s)\<rparr>) ev"

text \<open>
  One action. Until its \<open>fetch\<close> settles, a handler has done what it does when the
  \<open>fetch\<close> rejects: \<open>handle\<close> with \<open>ok = False\<close> gives the part before the \<open>await\<close>, and
  the continuation becomes pending when a request was sent. Every effect is recorded
  with the node the component holds when it happens.
\<close>

fun deliver ::
  "(bool \<Rightarrow> bool) \<Rightarrow> int \<Rightarrow> action \<Rightarrow> component \<Rightarrow> (TreeNodeType \<times> effect) list \<times> component" where
  "deliver dialog treeId (User ev) c =
     (if available dialog (node_p c) (state_p c) ev then
        let (effs, s1) = handle (node_p c) treeId False ev (state_p c)
        in (map (Pair (node_p c)) effs,
            c\<lparr>state_p := s1,
              pending := pending c @
                (case awaited ev of Some k \<Rightarrow> if effs = [] then [] else [k] | None \<Rightarrow> [])\<rparr>)
      else ([], c))"
| "deliver dialog treeId (Props node) c = ([], c\<lparr>node_p := node\<rparr>)"
| "deliver dialog treeId (Settle i ok) c =
     (if i < length (pending c) then
        let rest = take i (pending c) @ drop (Suc i) (pending c)
        in if ok then
             let (effs, s1) = resume (pending c ! i) (state_p c)
             in (map (Pair (node_p c)) effs, c\<lparr>state_p := s1, pending := rest\<rparr>)
           else ([], c\<lparr>pending := rest\<rparr>)
      else ([], c))"

text \<open>
  A session is a sequence of actions. It goes on after a \<open>reload\<close>, although the list
  is then replaced by the loading message and the component unmounted: sessions have
  the traces of the code and more.
\<close>

fun session ::
  "(bool \<Rightarrow> bool) \<Rightarrow> int \<Rightarrow> action list \<Rightarrow> component \<Rightarrow> (TreeNodeType \<times> effect) list \<times> component" where
  "session dialog treeId [] c = ([], c)"
| "session dialog treeId (a # acts) c =
     (let (effs, c1) = deliver dialog treeId a c;
          (effs', c2) = session dialog treeId acts c1
      in (effs @ effs', c2))"

text \<open>
  The schedule of a run as a session: each event is followed by the settling of the
  \<open>fetch\<close> it may have started.
\<close>

fun schedule :: "(event \<times> bool) list \<Rightarrow> action list" where
  "schedule [] = []"
| "schedule ((ev, ok) # eos) = User ev # Settle 0 ok # schedule eos"


section \<open>Creating a tree (TreeManager.tsx)\<close>

subsection \<open>Numbers\<close>

text \<open>
  A Number is an IEEE 754 binary64 value; the finite non-negative ones are modelled by
  their rational values. \<open>binade x\<close> is the exponent \<open>e\<close> of a positive \<open>x\<close>, that is
  \<open>2 powi e \<le> x < 2 powi (e + 1)\<close>, computed from the bit lengths of the numerator
  and the denominator.
\<close>

definition binade :: "rat \<Rightarrow> int" where
  "binade x =
     (let (p, q) = quotient_of x; d = bitlen p - bitlen q
      in if 2 powi d \<le> x then d else d - 1)"

text \<open>
  The spacing of the binary64 values around \<open>x\<close>: 53 significant bits, and
  \<open>2 powi (- 1074)\<close> in the subnormal range.
\<close>

definition ulp64 :: "rat \<Rightarrow> rat" where
  "ulp64 x = 2 powi (max (binade x - 52) (- 1074))"

definition roundTiesToEven :: "rat \<Rightarrow> int" where
  "roundTiesToEven y =
     (let n = \<lfloor>y\<rfloor>; f = y - of_int n
      in if f < 1 / 2 then n else if 1 / 2 < f then n + 1 else if even n then n else n + 1)"

text \<open>
  The binary64 value of an exact non-negative result \<open>x\<close> below the overflow threshold
  (round to nearest, ties to even).
\<close>

definition fl64 :: "rat \<Rightarrow> rat" where
  "fl64 x = (if x \<le> 0 then 0 else of_int (roundTiesToEven (x / ulp64 x)) * ulp64 x)"

text \<open>
  \<open>Math.random()\<close> returns a Number that is at least 0 and less than 1.
\<close>

definition isRandom :: "rat \<Rightarrow> bool" where
  "isRandom r = (0 \<le> r \<and> r < 1 \<and> fl64 r = r)"

text \<open>\<^verbatim>\<open>Math.floor(Math.random() * 2000000000)\<close>, for the value \<open>random\<close> of \<open>Math.random()\<close>.\<close>

definition newTreeId :: "rat \<Rightarrow> int" where
  "newTreeId random = \<lfloor>fl64 (random * 2000000000)\<rfloor>"

subsection \<open>\<open>encodeURIComponent\<close>\<close>

text \<open>
  \<open>encodeURIComponent\<close> throws a \<open>URIError\<close> on a string with a lone surrogate, that is
  unless every code unit in D800 to DBFF is followed by one in DC00 to DFFF and every
  code unit in DC00 to DFFF follows one in D800 to DBFF.
\<close>

definition isLeadingSurrogate :: "16 word \<Rightarrow> bool" where
  "isLeadingSurrogate c = (0xD800 \<le> c \<and> c \<le> 0xDBFF)"

definition isTrailingSurrogate :: "16 word \<Rightarrow> bool" where
  "isTrailingSurrogate c = (0xDC00 \<le> c \<and> c \<le> 0xDFFF)"

fun isWellFormed :: "js_string \<Rightarrow> bool" where
  "isWellFormed [] = True"
| "isWellFormed [c] = (\<not> isLeadingSurrogate c \<and> \<not> isTrailingSurrogate c)"
| "isWellFormed (c # d # cs) =
     (if isLeadingSurrogate c then isTrailingSurrogate d \<and> isWellFormed cs
      else \<not> isTrailingSurrogate c \<and> isWellFormed (d # cs))"

subsection \<open>The handler\<close>

text \<open>The \<open>useState\<close> variables of \<open>TreeManager\<close>.\<close>

record TreeManagerState =
  trees :: "TreeType list"
  loading :: bool
  isUpdating :: bool
  showCreateDialog :: bool
  newTreeName :: js_string

text \<open>
  \<^verbatim>\<open>
  async function createTree(e) {
    e.preventDefault();
    if (!newTreeName.trim()) return;
    try {
      // Use a smaller random number that fits in PostgreSQL INTEGER
      const treeId = Math.floor(Math.random() * 2000000000);
      await fetch(`${API}/trees/${treeId}/root?name=${encodeURIComponent(newTreeName)}`,
        { method: "POST" });
      setShowCreateDialog(false);
      setNewTreeName("");
      loadTrees();
    } catch (error) { console.error("Failed to create tree:", error); }
  }
  \<close>
  \<open>random\<close> is the value of \<open>Math.random()\<close> and \<open>ok\<close> tells whether the \<open>fetch\<close>
  resolves. A \<open>URIError\<close> of \<open>encodeURIComponent\<close> is thrown before the request is
  sent, and caught.
\<close>

definition createTree ::
  "rat \<Rightarrow> bool \<Rightarrow> TreeManagerState \<Rightarrow> effect list \<times> TreeManagerState" where
  "createTree random ok s =
     (if trim (newTreeName s) = [] then ([], s)
      else
        let treeId = newTreeId random
        in if \<not> isWellFormed (newTreeName s) then ([], s)
           else if ok then
             ([Fetch (POST_root treeId (newTreeName s)), LoadTrees],
              s\<lparr>showCreateDialog := False, newTreeName := []\<rparr>)
           else ([Fetch (POST_root treeId (newTreeName s))], s))"

subsection \<open>Loading the trees\<close>





section \<open>Properties of the export transformation\<close>

lemma those_map_Some:
  "\<forall>x \<in> set xs. g x = Some (f x) \<Longrightarrow> those (map g xs) = Some (map f xs)"
  by (induction xs) simp_all

text \<open>
  C1. For every node, \<open>renderTree\<close> returns one of two shapes: \<open>{name, children}\<close>, the
  children rendered in order, when the node has one or more children, and otherwise
  \<open>{name, data}\<close> with the node's stored data. The result never has both a
  \<open>children\<close> key and a \<open>data\<close> key, and a node without children yields the data form
  also when its data is \<open>null\<close>.
\<close>

theorem renderTree_two_shapes:
  "(children node \<noteq> [] \<longrightarrow>
      renderTree node =
        JObject [(''name'', JString (name node)),
                 (''children'', JArray (map renderTree (children node)))])
   \<and> (children node = [] \<longrightarrow>
      renderTree node =
        JObject [(''name'', JString (name node)), (''data'', js_nullable (data node))])
   \<and> \<not> (has_key ''children'' (renderTree node) \<and> has_key ''data'' (renderTree node))
   \<and> (children node = [] \<and> data node = None \<longrightarrow>
      renderTree node = JObject [(''name'', JString (name node)), (''data'', JNull)])"
  by (cases node) (simp add: has_key_def js_nullable_def)

theorem renderTree_two_shapes_witness:
  "renderTree (TreeNodeType 7 1 (js_str ''1.7'') (js_str ''n'') None []) =
     JObject [(''name'', JString (js_str ''n'')), (''data'', JNull)]
   \<and> renderTree (TreeNodeType 1 1 (js_str ''1'') (js_str ''r'') None
        [TreeNodeType 2 1 (js_str ''1.2'') (js_str ''x'') (Some (js_str ''d'')) []]) =
     JObject [(''name'', JString (js_str ''r'')),
              (''children'', JArray [JObject [(''name'', JString (js_str ''x'')),
                                              (''data'', JString (js_str ''d''))]])]"
  using renderTree_two_shapes [of "TreeNodeType 7 1 (js_str ''1.7'') (js_str ''n'') None []"]
    renderTree_two_shapes [of "TreeNodeType 1 1 (js_str ''1'') (js_str ''r'') None
        [TreeNodeType 2 1 (js_str ''1.2'') (js_str ''x'') (Some (js_str ''d'')) []]"]
  by (simp add: js_nullable_def)

text \<open>
  C2. Round trip of the exporter: reading the rendered value of any node (a tree with
  its root) back gives the stored shape of that node, that is the stored data at every
  leaf and the children of every internal node in their stored order.
\<close>

theorem readBack_renderTree: "readBack (renderTree node) = Some (stored_shape node)"
proof (induction node rule: renderTree.induct)
  case (1 i t p n d cs)
  show ?case
  proof (cases "cs = []")
    case True
    then show ?thesis by (cases d) (simp_all add: js_nullable_def)
  next
    case False
    with 1 have "\<forall>x \<in> set cs. (readBack \<circ> renderTree) x = Some (stored_shape x)"
      by simp
    then have "those (map (readBack \<circ> renderTree) cs) = Some (map stored_shape cs)"
      by (rule those_map_Some)
    with False show ?thesis by simp
  qed
qed

theorem readBack_renderTree_witness:
  "readBack (renderTree (TreeNodeType 1 1 (js_str ''1'') (js_str ''r'') (Some (js_str ''lost''))
      [TreeNodeType 2 1 (js_str ''1.2'') (js_str ''x'') (Some (js_str ''d'')) [],
       TreeNodeType 3 1 (js_str ''1.3'') (js_str ''y'') None []])) =
   Some (Internal (js_str ''r'')
      [Leaf (js_str ''x'') (Some (js_str ''d'')), Leaf (js_str ''y'') None])"
  using readBack_renderTree [of "TreeNodeType 1 1 (js_str ''1'') (js_str ''r'')
      (Some (js_str ''lost''))
      [TreeNodeType 2 1 (js_str ''1.2'') (js_str ''x'') (Some (js_str ''d'')) [],
       TreeNodeType 3 1 (js_str ''1.3'') (js_str ''y'') None []]"]
  by simp

text \<open>
  C3. The claim is that the listing with its export value is well defined for a tree
  whose root is \<open>null\<close>. The code renders the node editor only for a non-null root, but
  \<open>TreeView\<close> applies \<open>renderTree\<close> to \<open>tree.root\<close> unguarded: for the rootless tree
  \<open>{tree_id: 1, root: null}\<close> it throws a \<open>TypeError\<close>, and so does the listing.
\<close>

theorem TreeView_null_root:
  "TreeView (TreeType 1 None) = Inl TypeError
   \<and> renderTrees 0 [TreeType 1 None] = Inl TypeError"
  by (simp add: TreeView_def renderTree_arg_def)

text \<open>
  C5. The tree whose root is named \<open>root\<close>, with data \<open>null\<close> and the two children
  \<open>a\<close> and \<open>b\<close> in this order, each with data \<open>""\<close>, is exported as
  \<open>{name: "root", children: [{name: "a", data: ""}, {name: "b", data: ""}]}\<close>, whatever
  the identifiers and paths of the three nodes.
\<close>

theorem renderTree_scenario:
  "renderTree (TreeNodeType i t p (js_str ''root'') None
      [TreeNodeType ia ta pa (js_str ''a'') (Some (js_str [])) [],
       TreeNodeType ib tb pb (js_str ''b'') (Some (js_str [])) []]) =
   JObject [(''name'', JString (js_str ''root'')),
            (''children'',
               JArray [JObject [(''name'', JString (js_str ''a'')), (''data'', JString [])],
                       JObject [(''name'', JString (js_str ''b'')), (''data'', JString [])]])]"
  by (simp add: js_nullable_def js_str_def)

section \<open>Properties of the export transformation on the store\<close>

lemma deref_append: "deref h a = Some obj \<Longrightarrow> deref (h @ ext) a = Some obj"
  by (auto simp: deref_def nth_append split: if_splits)

lemma deref_alloc: "deref (h @ [obj]) (length h) = Some obj"
  by (simp add: deref_def)

lemma node_at_append: "node_at h a node \<Longrightarrow> node_at (h @ ext) a node"
proof (induction h a node rule: node_at.induct)
  case (1 h a i t p n d cs)
  from "1.prems" obtain obj where obj: "deref h a = Some obj"
    by (auto split: option.splits)
  with "1.prems" obtain as where as: "get obj ''children'' = FArray as"
    by (auto split: field.splits)
  from "1.prems" obj as have l: "list_all2 (node_at h) as cs" by simp
  have "list_all2 (node_at (h @ ext)) as cs"
    using l "1.IH" [OF obj as] by (auto simp: list_all2_conv_all_nth)
  with "1.prems" obj as deref_append [OF obj, of ext] show ?case by simp
qed

lemma value_field_at_append:
  "(value_at h a v \<longrightarrow> value_at (h @ ext) a v) \<and> (field_at h f v \<longrightarrow> field_at (h @ ext) f v)"
proof (induction v arbitrary: a f)
  case JNull
  then show ?case by (cases f) simp_all
next
  case (JNumber n)
  then show ?case by (cases f) simp_all
next
  case (JString s)
  then show ?case by (cases f) simp_all
next
  case (JArray vs)
  have "field_at (h @ ext) f (JArray vs)" if "field_at h f (JArray vs)"
  proof (cases f)
    case (FArray as)
    with that have "list_all2 (value_at h) as vs" by simp
    then have "list_all2 (value_at (h @ ext)) as vs"
      by (rule list.rel_mono_strong) (use JArray.IH in blast)
    with FArray show ?thesis by simp
  qed (use that in simp_all)
  then show ?case by simp
next
  case (JObject kvs)
  have "value_at (h @ ext) a (JObject kvs)" if "value_at h a (JObject kvs)"
  proof -
    from that obtain obj where obj: "deref h a = Some obj"
      by (auto split: option.splits)
    with that
    have "list_all2 (\<lambda>kf kv. fst kf = fst kv \<and> field_at h (snd kf) (snd kv)) obj kvs"
      by simp
    then have
      "list_all2 (\<lambda>kf kv. fst kf = fst kv \<and> field_at (h @ ext) (snd kf) (snd kv)) obj kvs"
    proof (rule list.rel_mono_strong)
      fix kf kv
      assume "kv \<in> set kvs" "fst kf = fst kv \<and> field_at h (snd kf) (snd kv)"
      moreover have "snd kv \<in> Basic_BNFs.snds kv" by (cases kv) simp
      ultimately show "fst kf = fst kv \<and> field_at (h @ ext) (snd kf) (snd kv)"
        using JObject.IH by blast
    qed
    with deref_append [OF obj, of ext] show ?thesis by simp
  qed
  then show ?case by (cases f) simp_all
qed

lemma value_at_append: "value_at h a v \<Longrightarrow> value_at (h @ ext) a v"
  using value_field_at_append by blast

lemma array_map_renders:
  "(\<And>c h a. c \<in> set cs \<Longrightarrow> node_at h a c \<Longrightarrow>
      \<exists>r new. renderTree_store d h a = Some (Inr (r, h @ new))
        \<and> value_at (h @ new) r (renderTree c)) \<Longrightarrow>
   list_all2 (node_at h) as cs \<Longrightarrow>
   \<exists>rs new. array_map (renderTree_store d) h as = Some (Inr (rs, h @ new))
     \<and> list_all2 (value_at (h @ new)) rs (map renderTree cs)"
proof (induction cs arbitrary: as h)
  case Nil
  then show ?case by simp
next
  case (Cons c cs)
  from Cons.prems(2) obtain a as' where as: "as = a # as'" "node_at h a c"
    "list_all2 (node_at h) as' cs"
    by (auto simp: list_all2_Cons2)
  from Cons.prems(1) [of c h a] as(2) obtain r new1 where
    r: "renderTree_store d h a = Some (Inr (r, h @ new1))"
       "value_at (h @ new1) r (renderTree c)"
    by auto
  from as(3) have "list_all2 (node_at (h @ new1)) as' cs"
    by (rule list.rel_mono_strong) (rule node_at_append)
  with Cons.IH [of "h @ new1" as'] Cons.prems(1) obtain rs new2 where
    rs: "array_map (renderTree_store d) (h @ new1) as' = Some (Inr (rs, (h @ new1) @ new2))"
        "list_all2 (value_at ((h @ new1) @ new2)) rs (map renderTree cs)"
    by auto
  from r(2) have "value_at ((h @ new1) @ new2) r (renderTree c)" by (rule value_at_append)
  with rs(2) have "list_all2 (value_at (h @ (new1 @ new2))) (r # rs) (map renderTree (c # cs))"
    by simp
  moreover from r(1) rs(1)
  have "array_map (renderTree_store d) h as = Some (Inr (r # rs, h @ (new1 @ new2)))"
    by (simp add: as(1))
  ultimately show ?case by blast
qed

lemma depth_of_child:
  "c \<in> set cs \<Longrightarrow> depth_of c < depth_of (TreeNodeType i t p n d cs)"
proof -
  assume "c \<in> set cs"
  then have "depth_of c \<in> set (0 # map depth_of cs)" by simp
  then have "depth_of c \<le> Max (set (0 # map depth_of cs))" by (intro Max_ge) simp_all
  then show ?thesis by simp
qed

lemma renderTree_store_renders:
  "node_at h a node \<Longrightarrow> depth_of node \<le> depth \<Longrightarrow>
   \<exists>r new. renderTree_store depth h a = Some (Inr (r, h @ new))
     \<and> value_at (h @ new) r (renderTree node)"
proof (induction node arbitrary: h a depth)
  case (TreeNodeType i t p n d cs)
  from TreeNodeType.prems(2) obtain depth' where depth: "depth = Suc depth'"
    by (cases depth) simp_all
  from TreeNodeType.prems(1) obtain obj where obj: "deref h a = Some obj"
    by (auto split: option.splits)
  with TreeNodeType.prems(1) have name: "get obj ''name'' = FString n"
    and data: "get obj ''data'' = (case d of None \<Rightarrow> FNull | Some s \<Rightarrow> FString s)"
    by simp_all
  from TreeNodeType.prems(1) obj obtain as where
    as: "get obj ''children'' = FArray as" "list_all2 (node_at h) as cs"
    by (auto split: field.splits)
  show ?case
  proof (cases "cs = []")
    case True
    with as(2) have "as = []" by simp
    with True obj name data as(1) depth show ?thesis
      by (cases d)
        (auto simp: alloc_def deref_alloc js_nullable_def Let_def intro!: exI [of _ "[_]"])
  next
    case False
    with as(2) have len: "0 < length as" by (auto simp: list_all2_conv_all_nth)
    have "\<exists>r new. renderTree_store depth' h' a' = Some (Inr (r, h' @ new))
        \<and> value_at (h' @ new) r (renderTree c)"
      if "c \<in> set cs" "node_at h' a' c" for c h' a'
    proof (rule TreeNodeType.IH [OF that])
      from depth_of_child [OF that(1), of i t p n d] TreeNodeType.prems(2) depth
      show "depth_of c \<le> depth'" by linarith
    qed
    from array_map_renders [of cs depth' h as, OF this as(2)] obtain rs new where
      rs: "array_map (renderTree_store depth') h as = Some (Inr (rs, h @ new))"
          "list_all2 (value_at (h @ new)) rs (map renderTree cs)"
      by blast
    let ?res = "[(''name'', FString n), (''children'', FArray rs)]"
    from rs(2) have "list_all2 (value_at ((h @ new) @ [?res])) rs (map renderTree cs)"
      by (rule list.rel_mono_strong) (rule value_at_append)
    then have "value_at (h @ (new @ [?res])) (length (h @ new))
        (renderTree (TreeNodeType i t p n d cs))"
      using False deref_alloc [of "h @ new" ?res] by simp
    moreover have "renderTree_store depth h a = Some (Inr (length (h @ new), h @ (new @ [?res])))"
      using obj name as(1) len rs(1) depth by (simp add: alloc_def Let_def)
    ultimately show ?thesis by blast
  qed
qed

lemma value_field_at_unique:
  "(value_at h a v \<longrightarrow> value_at h a v' \<longrightarrow> v = v')
   \<and> (field_at h f v \<longrightarrow> field_at h f v' \<longrightarrow> v = v')"
proof (induction v arbitrary: a f v')
  case JNull
  then show ?case by (cases f; cases v') simp_all
next
  case (JNumber n)
  then show ?case by (cases f; cases v') simp_all
next
  case (JString s)
  then show ?case by (cases f; cases v') simp_all
next
  case (JArray vs)
  have "JArray vs = v'" if "field_at h f (JArray vs)" "field_at h f v'"
  proof -
    from that(1) obtain as where f: "f = FArray as" and l: "list_all2 (value_at h) as vs"
      by (cases f) simp_all
    with that(2) obtain vs' where v': "v' = JArray vs'" and l': "list_all2 (value_at h) as vs'"
      by (cases v') simp_all
    have "vs = vs'"
    proof (rule nth_equalityI)
      show "length vs = length vs'" using l l' by (simp add: list_all2_lengthD [symmetric])
    next
      fix k assume k: "k < length vs"
      with l l' have "value_at h (as ! k) (vs ! k)" "value_at h (as ! k) (vs' ! k)"
        by (simp_all add: list_all2_conv_all_nth)
      moreover from k have "vs ! k \<in> set vs" by simp
      ultimately show "vs ! k = vs' ! k" using JArray.IH by blast
    qed
    with v' show ?thesis by simp
  qed
  then show ?case by simp
next
  case (JObject kvs)
  have "JObject kvs = v'" if "value_at h a (JObject kvs)" "value_at h a v'"
  proof -
    from that(1) obtain obj where obj: "deref h a = Some obj"
      and l: "list_all2 (\<lambda>kf kv. fst kf = fst kv \<and> field_at h (snd kf) (snd kv)) obj kvs"
      by (auto split: option.splits)
    with that(2) obtain kvs' where v': "v' = JObject kvs'"
      and l': "list_all2 (\<lambda>kf kv. fst kf = fst kv \<and> field_at h (snd kf) (snd kv)) obj kvs'"
      by (cases v') simp_all
    have "kvs = kvs'"
    proof (rule nth_equalityI)
      show "length kvs = length kvs'" using l l' by (simp add: list_all2_lengthD [symmetric])
    next
      fix k assume k: "k < length kvs"
      with l l' have e: "fst (obj ! k) = fst (kvs ! k)" "fst (obj ! k) = fst (kvs' ! k)"
        "field_at h (snd (obj ! k)) (snd (kvs ! k))" "field_at h (snd (obj ! k)) (snd (kvs' ! k))"
        by (simp_all add: list_all2_conv_all_nth)
      from k have "kvs ! k \<in> set kvs" by simp
      moreover have "snd (kvs ! k) \<in> Basic_BNFs.snds (kvs ! k)" by (cases "kvs ! k") simp
      ultimately have "snd (kvs ! k) = snd (kvs' ! k)" using JObject.IH e(3,4) by blast
      with e(1,2) show "kvs ! k = kvs' ! k" by (simp add: prod_eq_iff)
    qed
    with v' show ?thesis by simp
  qed
  then show ?case by (cases f) simp_all
qed

lemma value_at_unique: "value_at h a v \<Longrightarrow> value_at h a v' \<Longrightarrow> v = v'"
  using value_field_at_unique by blast

lemma value_at_children:
  assumes "value_at h r (renderTree node)" "children node \<noteq> []"
  shows "\<exists>rs. deref h r = Some [(''name'', FString (name node)), (''children'', FArray rs)]
    \<and> list_all2 (\<lambda>x c. value_at h x (renderTree c)) rs (children node)"
proof (cases node)
  case (TreeNodeType i t p n d cs)
  with assms obtain obj where obj: "deref h r = Some obj"
    and l: "list_all2 (\<lambda>kf kv. fst kf = fst kv \<and> field_at h (snd kf) (snd kv)) obj
             [(''name'', JString n), (''children'', JArray (map renderTree cs))]"
    by (auto split: option.splits)
  from l obtain f1 f2 where o: "obj = [(''name'', f1), (''children'', f2)]"
    "field_at h f1 (JString n)" "field_at h f2 (JArray (map renderTree cs))"
    by (auto simp: list_all2_Cons2)
  from o(2) have f1: "f1 = FString n" by (cases f1) simp_all
  from o(3) obtain rs where f2: "f2 = FArray rs"
    "list_all2 (value_at h) rs (map renderTree cs)" by (cases f2) simp_all
  from f2(2) have "list_all2 (\<lambda>x c. value_at h x (renderTree c)) rs cs"
    by (simp add: list_all2_map2)
  with obj o(1) f1 f2(1) TreeNodeType show ?thesis by simp
qed

text \<open>
  C8. On every store that holds a node (and with nested calls to spare) \<open>renderTree\<close>
  returns, and it has no side effect: the store it leaves is the store it found,
  followed by the objects it created. The object it returns holds \<open>renderTree node\<close> and
  no other value, so its result is a function of the node alone: two applications to
  equal nodes, in whatever stores and at whatever references, give equal values. The
  \<open>children\<close> array of the result refers to the renderings of the stored children, in
  their stored order.
\<close>

theorem renderTree_store_pure:
  assumes "node_at h1 a1 node" and "node_at h2 a2 node"
    and "depth_of node \<le> d1" and "depth_of node \<le> d2"
  shows "\<exists>r1 new1 r2 new2.
      renderTree_store d1 h1 a1 = Some (Inr (r1, h1 @ new1))
    \<and> renderTree_store d2 h2 a2 = Some (Inr (r2, h2 @ new2))
    \<and> value_at (h1 @ new1) r1 (renderTree node)
    \<and> value_at (h2 @ new2) r2 (renderTree node)
    \<and> (\<forall>v. value_at (h1 @ new1) r1 v \<longrightarrow> v = renderTree node)
    \<and> (children node \<noteq> [] \<longrightarrow>
         (\<exists>rs. deref (h1 @ new1) r1 =
                 Some [(''name'', FString (name node)), (''children'', FArray rs)]
            \<and> list_all2 (\<lambda>x c. value_at (h1 @ new1) x (renderTree c)) rs (children node)))"
proof -
  from renderTree_store_renders [OF assms(1,3)] obtain r1 new1 where
    r1: "renderTree_store d1 h1 a1 = Some (Inr (r1, h1 @ new1))"
        "value_at (h1 @ new1) r1 (renderTree node)" by blast
  from renderTree_store_renders [OF assms(2,4)] obtain r2 new2 where
    r2: "renderTree_store d2 h2 a2 = Some (Inr (r2, h2 @ new2))"
        "value_at (h2 @ new2) r2 (renderTree node)" by blast
  from r1(2) have "\<forall>v. value_at (h1 @ new1) r1 v \<longrightarrow> v = renderTree node"
    using value_at_unique by blast
  moreover have "children node \<noteq> [] \<longrightarrow>
         (\<exists>rs. deref (h1 @ new1) r1 =
                 Some [(''name'', FString (name node)), (''children'', FArray rs)]
            \<and> list_all2 (\<lambda>x c. value_at (h1 @ new1) x (renderTree c)) rs (children node))"
    using value_at_children [OF r1(2)] by blast
  ultimately show ?thesis using r1 r2 by blast
qed

theorem renderTree_store_pure_witness:
  "node_at
     [[(''id'', FNumber 1), (''tree_id'', FNumber 1), (''path'', FString (js_str ''1'')),
       (''name'', FString (js_str ''r'')), (''data'', FNull), (''children'', FArray [1, 2])],
      [(''id'', FNumber 2), (''tree_id'', FNumber 1), (''path'', FString (js_str ''1.2'')),
       (''name'', FString (js_str ''a'')), (''data'', FString []), (''children'', FArray [])],
      [(''id'', FNumber 3), (''tree_id'', FNumber 1), (''path'', FString (js_str ''1.3'')),
       (''name'', FString (js_str ''b'')), (''data'', FNull), (''children'', FArray [])]] 0
     (TreeNodeType 1 1 (js_str ''1'') (js_str ''r'') None
        [TreeNodeType 2 1 (js_str ''1.2'') (js_str ''a'') (Some []) [],
         TreeNodeType 3 1 (js_str ''1.3'') (js_str ''b'') None []])
   \<and> node_at
     [[(''children'', FArray []), (''data'', FNull), (''name'', FString (js_str ''b'')),
       (''path'', FString (js_str ''1.3'')), (''tree_id'', FNumber 1), (''id'', FNumber 3)],
      [(''children'', FArray [3, 0]), (''data'', FNull), (''name'', FString (js_str ''r'')),
       (''path'', FString (js_str ''1'')), (''tree_id'', FNumber 1), (''id'', FNumber 1)],
      [(''name'', FString (js_str ''other''))],
      [(''children'', FArray []), (''data'', FString []), (''name'', FString (js_str ''a'')),
       (''path'', FString (js_str ''1.2'')), (''tree_id'', FNumber 1), (''id'', FNumber 2)]] 1
     (TreeNodeType 1 1 (js_str ''1'') (js_str ''r'') None
        [TreeNodeType 2 1 (js_str ''1.2'') (js_str ''a'') (Some []) [],
         TreeNodeType 3 1 (js_str ''1.3'') (js_str ''b'') None []])
   \<and> depth_of (TreeNodeType 1 1 (js_str ''1'') (js_str ''r'') None
        [TreeNodeType 2 1 (js_str ''1.2'') (js_str ''a'') (Some []) [],
         TreeNodeType 3 1 (js_str ''1.3'') (js_str ''b'') None []]) \<le> 2
   \<and> (\<exists>r1 new1 r2 new2.
        renderTree_store 2
          [[(''id'', FNumber 1), (''tree_id'', FNumber 1), (''path'', FString (js_str ''1'')),
            (''name'', FString (js_str ''r'')), (''data'', FNull), (''children'', FArray [1, 2])],
           [(''id'', FNumber 2), (''tree_id'', FNumber 1), (''path'', FString (js_str ''1.2'')),
            (''name'', FString (js_str ''a'')), (''data'', FString []), (''children'', FArray [])],
           [(''id'', FNumber 3), (''tree_id'', FNumber 1), (''path'', FString (js_str ''1.3'')),
            (''name'', FString (js_str ''b'')), (''data'', FNull), (''children'', FArray [])]] 0 =
        Some (Inr (r1,
          [[(''id'', FNumber 1), (''tree_id'', FNumber 1), (''path'', FString (js_str ''1'')),
            (''name'', FString (js_str ''r'')), (''data'', FNull), (''children'', FArray [1, 2])],
           [(''id'', FNumber 2), (''tree_id'', FNumber 1), (''path'', FString (js_str ''1.2'')),
            (''name'', FString (js_str ''a'')), (''data'', FString []), (''children'', FArray [])],
           [(''id'', FNumber 3), (''tree_id'', FNumber 1), (''path'', FString (js_str ''1.3'')),
            (''name'', FString (js_str ''b'')), (''data'', FNull), (''children'', FArray [])]]
          @ new1))
      \<and> renderTree_store 7
          [[(''children'', FArray []), (''data'', FNull), (''name'', FString (js_str ''b'')),
            (''path'', FString (js_str ''1.3'')), (''tree_id'', FNumber 1), (''id'', FNumber 3)],
           [(''children'', FArray [3, 0]), (''data'', FNull), (''name'', FString (js_str ''r'')),
            (''path'', FString (js_str ''1'')), (''tree_id'', FNumber 1), (''id'', FNumber 1)],
           [(''name'', FString (js_str ''other''))],
           [(''children'', FArray []), (''data'', FString []), (''name'', FString (js_str ''a'')),
            (''path'', FString (js_str ''1.2'')), (''tree_id'', FNumber 1), (''id'', FNumber 2)]] 1 =
        Some (Inr (r2,
          [[(''children'', FArray []), (''data'', FNull), (''name'', FString (js_str ''b'')),
            (''path'', FString (js_str ''1.3'')), (''tree_id'', FNumber 1), (''id'', FNumber 3)],
           [(''children'', FArray [3, 0]), (''data'', FNull), (''name'', FString (js_str ''r'')),
            (''path'', FString (js_str ''1'')), (''tree_id'', FNumber 1), (''id'', FNumber 1)],
           [(''name'', FString (js_str ''other''))],
           [(''children'', FArray []), (''data'', FString []), (''name'', FString (js_str ''a'')),
            (''path'', FString (js_str ''1.2'')), (''tree_id'', FNumber 1), (''id'', FNumber 2)]]
          @ new2))
      \<and> value_at
          ([[(''id'', FNumber 1), (''tree_id'', FNumber 1), (''path'', FString (js_str ''1'')),
            (''name'', FString (js_str ''r'')), (''data'', FNull), (''children'', FArray [1, 2])],
           [(''id'', FNumber 2), (''tree_id'', FNumber 1), (''path'', FString (js_str ''1.2'')),
            (''name'', FString (js_str ''a'')), (''data'', FString []), (''children'', FArray [])],
           [(''id'', FNumber 3), (''tree_id'', FNumber 1), (''path'', FString (js_str ''1.3'')),
            (''name'', FString (js_str ''b'')), (''data'', FNull), (''children'', FArray [])]]
          @ new1) r1
          (JObject [(''name'', JString (js_str ''r'')),
             (''children'', JArray
                [JObject [(''name'', JString (js_str ''a'')), (''data'', JString [])],
                 JObject [(''name'', JString (js_str ''b'')), (''data'', JNull)]])]))"
  (is "?n1 \<and> ?n2 \<and> ?d \<and> ?c")
proof -
  have n1: ?n1 by (simp add: deref_def get_def)
  have n2: ?n2 by (simp add: deref_def get_def)
  have d: ?d by simp
  from renderTree_store_pure [OF n1 n2 d, of 7] have ?c
    by (simp add: js_nullable_def) blast
  with n1 n2 d show ?thesis by blast
qed

section \<open>Properties of the node editor\<close>

lemma edit_guard_initial: "edit_guard node (initialState node)"
  by (simp add: edit_guard_def initialState_def)

lemma handle_edit_guard:
  "edit_guard node s \<Longrightarrow> offered node s ev \<Longrightarrow> edit_guard node (snd (handle node treeId ok ev s))"
  by (cases ev)
    (auto simp: edit_guard_def handleNameUpdate_def handleAddChild_def handleUpdateData_def
      handleDeleteNode_def Let_def split: if_splits)

lemma step_edit_guard: "edit_guard node s \<Longrightarrow> edit_guard node (snd (step node treeId eo s))"
  by (simp add: step_def handle_edit_guard)

lemma handle_data_update:
  "offered node s ev \<Longrightarrow> e \<in> set (fst (handle node treeId ok ev s)) \<Longrightarrow> data_update e \<Longrightarrow>
   showEditDialog s \<and> e = Fetch (PATCH_nodes (id_n node) (JObject [(''data'', JString (dataValue s))]))"
  by (cases ev)
    (auto simp: handleNameUpdate_def handleAddChild_def handleUpdateData_def
      handleDeleteNode_def Let_def has_key_def split: if_splits)

lemma step_data_update:
  "e \<in> set (fst (step node treeId eo s)) \<Longrightarrow> data_update e \<Longrightarrow>
   showEditDialog s \<and> e = Fetch (PATCH_nodes (id_n node) (JObject [(''data'', JString (dataValue s))]))"
  by (auto simp: step_def dest: handle_data_update split: if_splits)

lemma run_data_update:
  "edit_guard node s \<Longrightarrow> e \<in> set (fst (run node treeId eos s)) \<Longrightarrow> data_update e \<Longrightarrow>
   children node = [] \<and> (\<exists>v. e = Fetch (PATCH_nodes (id_n node) (JObject [(''data'', JString v)])))"
proof (induction eos arbitrary: s)
  case Nil
  then show ?case by simp
next
  case (Cons eo eos)
  obtain effs s1 where st: "step node treeId eo s = (effs, s1)" by force
  obtain effs' s2 where rn: "run node treeId eos s1 = (effs', s2)" by force
  from Cons.prems(2) st rn have "e \<in> set effs \<or> e \<in> set effs'" by simp
  then show ?case
  proof
    assume "e \<in> set effs"
    with st have "e \<in> set (fst (step node treeId eo s))" by simp
    from step_data_update [OF this Cons.prems(3)] Cons.prems(1)
    show ?thesis by (auto simp: edit_guard_def)
  next
    assume "e \<in> set effs'"
    moreover from step_edit_guard [OF Cons.prems(1), of treeId eo] st
    have "edit_guard node s1" by simp
    ultimately show ?thesis using Cons.IH [of s1] rn Cons.prems(3) by simp
  qed
qed

subsection \<open>Sessions\<close>

text \<open>A run is a session: the one in which every \<open>fetch\<close> settles at once.\<close>

lemma available_offered: "available (\<lambda>b. b) node s ev = offered node s ev"
  by (simp add: available_def)

lemma handle_settled:
  "handle node treeId True ev s =
     (let (effs, s1) = handle node treeId False ev s
      in case awaited ev of
           Some k \<Rightarrow> if effs = [] then (effs, s1) else (effs @ fst (resume k s1), snd (resume k s1))
         | None \<Rightarrow> (effs, s1))"
  by (cases ev)
    (auto simp: handleNameUpdate_def handleAddChild_def handleUpdateData_def
      handleDeleteNode_def Let_def)

lemma step_as_session:
  "session (\<lambda>b. b) treeId [User ev, Settle 0 ok] \<lparr>node_p = node, state_p = s, pending = []\<rparr> =
     (map (Pair node) (fst (step node treeId (ev, ok) s)),
      \<lparr>node_p = node, state_p = snd (step node treeId (ev, ok) s), pending = []\<rparr>)"
proof (cases "offered node s ev")
  case False
  then show ?thesis by (simp add: step_def available_offered)
next
  case True
  obtain effs s1 where h: "handle node treeId False ev s = (effs, s1)" by force
  show ?thesis
  proof (cases ok)
    case True
    with \<open>offered node s ev\<close> h handle_settled [of node treeId ev s] show ?thesis
      by (cases "awaited ev"; cases "effs = []")
         (auto simp: step_def available_offered split_beta)
  next
    case False
    with \<open>offered node s ev\<close> h show ?thesis
      by (cases "awaited ev"; cases "effs = []")
         (auto simp: step_def available_offered split_beta)
  qed
qed

lemma session_append:
  "session dialog treeId (as @ bs) c =
     (let (effs, c1) = session dialog treeId as c;
          (effs', c2) = session dialog treeId bs c1
      in (effs @ effs', c2))"
  by (induction as arbitrary: c) (simp_all add: split_beta)

lemma run_as_session:
  "session (\<lambda>b. b) treeId (schedule eos) \<lparr>node_p = node, state_p = s, pending = []\<rparr> =
     (map (Pair node) (fst (run node treeId eos s)),
      \<lparr>node_p = node, state_p = snd (run node treeId eos s), pending = []\<rparr>)"
proof (induction eos arbitrary: s)
  case Nil
  then show ?case by simp
next
  case (Cons eo eos)
  obtain ev ok where eo: "eo = (ev, ok)" by force
  let ?c = "\<lparr>node_p = node, state_p = s, pending = []\<rparr>"
  have "session (\<lambda>b. b) treeId (schedule (eo # eos)) ?c =
        session (\<lambda>b. b) treeId ([User ev, Settle 0 ok] @ schedule eos) ?c"
    by (simp add: eo)
  also have "\<dots> =
     (let (effs, c1) = session (\<lambda>b. b) treeId [User ev, Settle 0 ok] ?c;
          (effs', c2) = session (\<lambda>b. b) treeId (schedule eos) c1
      in (effs @ effs', c2))"
    by (rule session_append)
  also have "\<dots> =
     (map (Pair node) (fst (run node treeId (eo # eos) s)),
      \<lparr>node_p = node, state_p = snd (run node treeId (eo # eos) s), pending = []\<rparr>)"
    by (simp only: step_as_session) (simp add: Cons.IH eo split_beta)
  finally show ?case .
qed







text \<open>
  C6. When the root name is empty after trimming, \<open>createTree\<close> sends no request and
  changes nothing; when the child name is empty after trimming, \<open>handleAddChild\<close>, and
  so the submission of the add dialog, sends no request and changes nothing.
\<close>

theorem blank_name_no_request:
  "(trim (newTreeName m) = [] \<longrightarrow> createTree random ok m = ([], m))
   \<and> (trim (childName s) = [] \<longrightarrow>
        handleAddChild node treeId ok s = ([], s)
        \<and> step node treeId (AddDialogSubmit, ok) s = ([], s))"
  by (simp add: createTree_def handleAddChild_def step_def)

theorem blank_name_no_request_witness:
  "createTree (1 / 2) True
     \<lparr>trees = [], loading = False, isUpdating = False, showCreateDialog = True,
      newTreeName = js_str '' ''\<rparr> =
   ([], \<lparr>trees = [], loading = False, isUpdating = False, showCreateDialog = True,
      newTreeName = js_str '' ''\<rparr>)
   \<and> handleAddChild (TreeNodeType 1 1 (js_str ''1'') (js_str ''r'') None []) 1 True
       ((initialState (TreeNodeType 1 1 (js_str ''1'') (js_str ''r'') None []))
          \<lparr>showAddDialog := True, childName := [0x20, 0x9, 0xA0]\<rparr>) =
     ([], (initialState (TreeNodeType 1 1 (js_str ''1'') (js_str ''r'') None []))
          \<lparr>showAddDialog := True, childName := [0x20, 0x9, 0xA0]\<rparr>)"
  using blank_name_no_request [of
      "\<lparr>trees = [], loading = False, isUpdating = False, showCreateDialog = True,
        newTreeName = js_str '' ''\<rparr>"
      "1 / 2" True
      "(initialState (TreeNodeType 1 1 (js_str ''1'') (js_str ''r'') None []))
          \<lparr>showAddDialog := True, childName := [0x20, 0x9, 0xA0]\<rparr>"
      "TreeNodeType 1 1 (js_str ''1'') (js_str ''r'') None []" 1]
  by (simp add: trim_def isWhiteSpace_def js_str_def)

text \<open>
  C7. A rename to a name that is empty after trimming sends no request and the name
  shown is again the stored name; a rename to the stored name sends no request; a
  request is sent exactly for a changed name that is not empty after trimming, and it
  is the \<open>PATCH\<close> of the node whose body has the single field \<open>name\<close>.
\<close>

theorem handleNameUpdate_cases:
  "(trim (name_s s) = [] \<longrightarrow>
      fst (handleNameUpdate node treeId ok s) = []
      \<and> name_s (snd (handleNameUpdate node treeId ok s)) = name node
      \<and> displayedName node (snd (handleNameUpdate node treeId ok s)) = name node)
   \<and> (name_s s = name node \<longrightarrow> fst (handleNameUpdate node treeId ok s) = [])
   \<and> (trim (name_s s) \<noteq> [] \<and> name_s s \<noteq> name node \<longrightarrow>
        fst (handleNameUpdate node treeId ok s) =
          Fetch (PATCH_nodes (id_n node) (JObject [(''name'', JString (name_s s))]))
            # (if ok then [Reload] else []))
   \<and> (\<forall>r. Fetch r \<in> set (fst (handleNameUpdate node treeId ok s)) \<longrightarrow>
        trim (name_s s) \<noteq> [] \<and> name_s s \<noteq> name node
        \<and> r = PATCH_nodes (id_n node) (JObject [(''name'', JString (name_s s))]))"
  by (simp add: handleNameUpdate_def displayedName_def Let_def)

theorem handleNameUpdate_cases_witness:
  "handleNameUpdate (TreeNodeType 5 1 (js_str ''1.5'') (js_str ''old'') None []) 1 True
      ((initialState (TreeNodeType 5 1 (js_str ''1.5'') (js_str ''old'') None []))
         \<lparr>editing := True, name_s := js_str '' ''\<rparr>) =
     ([], initialState (TreeNodeType 5 1 (js_str ''1.5'') (js_str ''old'') None []))
   \<and> fst (handleNameUpdate (TreeNodeType 5 1 (js_str ''1.5'') (js_str ''old'') None []) 1 True
      ((initialState (TreeNodeType 5 1 (js_str ''1.5'') (js_str ''old'') None []))
         \<lparr>editing := True\<rparr>)) = []
   \<and> fst (handleNameUpdate (TreeNodeType 5 1 (js_str ''1.5'') (js_str ''old'') None []) 1 True
      ((initialState (TreeNodeType 5 1 (js_str ''1.5'') (js_str ''old'') None []))
         \<lparr>editing := True, name_s := js_str ''new''\<rparr>)) =
     [Fetch (PATCH_nodes 5 (JObject [(''name'', JString (js_str ''new''))])), Reload]"
  using handleNameUpdate_cases [of
      "(initialState (TreeNodeType 5 1 (js_str ''1.5'') (js_str ''old'') None []))
         \<lparr>editing := True, name_s := js_str '' ''\<rparr>"
      "TreeNodeType 5 1 (js_str ''1.5'') (js_str ''old'') None []" 1 True]
    handleNameUpdate_cases [of
      "(initialState (TreeNodeType 5 1 (js_str ''1.5'') (js_str ''old'') None []))
         \<lparr>editing := True\<rparr>"
      "TreeNodeType 5 1 (js_str ''1.5'') (js_str ''old'') None []" 1 True]
    handleNameUpdate_cases [of
      "(initialState (TreeNodeType 5 1 (js_str ''1.5'') (js_str ''old'') None []))
         \<lparr>editing := True, name_s := js_str ''new''\<rparr>"
      "TreeNodeType 5 1 (js_str ''1.5'') (js_str ''old'') None []" 1 True]
  by (simp add: handleNameUpdate_def initialState_def trim_def isWhiteSpace_def js_str_def)

text \<open>
  C10. Every data update a component sends carries a string, never \<open>null\<close>: its body is
  \<open>{data: v}\<close> for a string \<open>v\<close>, the content of the edit field, which starts as
  \<^verbatim>\<open>node.data ?? ""\<close>. On a node without children the client can send the empty
  string, and on one whose data is \<open>null\<close> saving the untouched field sends the empty
  string as well.
\<close>

theorem data_update_sends_string:
  "(\<forall>e \<in> set (fst (run node treeId eos (initialState node))).
      data_update e \<longrightarrow>
      (\<exists>v. e = Fetch (PATCH_nodes (id_n node) (JObject [(''data'', JString v)]))))
   \<and> fst (handleUpdateData node treeId ok s) =
        Fetch (PATCH_nodes (id_n node) (JObject [(''data'', JString (dataValue s))]))
          # (if ok then [Reload] else [])
   \<and> dataValue (initialState node) = nullish_empty (data node)
   \<and> (children node = [] \<longrightarrow>
        fst (run node treeId [(EditDataClick, ok1), (DataChange [], ok2), (EditDialogSubmit, ok)]
               (initialState node)) =
        Fetch (PATCH_nodes (id_n node) (JObject [(''data'', JString [])]))
          # (if ok then [Reload] else []))
   \<and> (children node = [] \<and> data node = None \<longrightarrow>
        fst (run node treeId [(EditDataClick, ok1), (EditDialogSubmit, ok)] (initialState node)) =
        Fetch (PATCH_nodes (id_n node) (JObject [(''data'', JString [])]))
          # (if ok then [Reload] else []))"
proof -
  have "\<exists>v. e = Fetch (PATCH_nodes (id_n node) (JObject [(''data'', JString v)]))"
    if "e \<in> set (fst (run node treeId eos (initialState node)))" "data_update e" for e
    using run_data_update [OF edit_guard_initial that] by blast
  moreover have "fst (handleUpdateData node treeId ok s) =
        Fetch (PATCH_nodes (id_n node) (JObject [(''data'', JString (dataValue s))]))
          # (if ok then [Reload] else [])"
    by (simp add: handleUpdateData_def Let_def)
  moreover have "dataValue (initialState node) = nullish_empty (data node)"
    by (simp add: initialState_def)
  moreover have "fst (run node treeId [(EditDataClick, ok1), (DataChange [], ok2), (EditDialogSubmit, ok)]
               (initialState node)) =
        Fetch (PATCH_nodes (id_n node) (JObject [(''data'', JString [])]))
          # (if ok then [Reload] else [])" if "children node = []"
    using that by (simp add: step_def initialState_def handleUpdateData_def Let_def)
  moreover have "fst (run node treeId [(EditDataClick, ok1), (EditDialogSubmit, ok)] (initialState node)) =
        Fetch (PATCH_nodes (id_n node) (JObject [(''data'', JString [])]))
          # (if ok then [Reload] else [])" if "children node = []" "data node = None"
    using that
    by (simp add: step_def initialState_def handleUpdateData_def Let_def nullish_empty_def)
  ultimately show ?thesis by blast
qed

theorem data_update_sends_string_witness:
  "fst (run (TreeNodeType 5 1 (js_str ''1.5'') (js_str ''leaf'') (Some (js_str ''d'')) []) 1
          [(EditDataClick, True), (DataChange [], True), (EditDialogSubmit, True)]
          (initialState (TreeNodeType 5 1 (js_str ''1.5'') (js_str ''leaf'') (Some (js_str ''d'')) []))) =
     [Fetch (PATCH_nodes 5 (JObject [(''data'', JString [])])), Reload]
   \<and> fst (run (TreeNodeType 6 1 (js_str ''1.6'') (js_str ''leaf'') None []) 1
          [(EditDataClick, True), (EditDialogSubmit, False)]
          (initialState (TreeNodeType 6 1 (js_str ''1.6'') (js_str ''leaf'') None []))) =
     [Fetch (PATCH_nodes 6 (JObject [(''data'', JString [])]))]"
  using data_update_sends_string [of
      "TreeNodeType 5 1 (js_str ''1.5'') (js_str ''leaf'') (Some (js_str ''d'')) []" 1 "[]"
      True "initialState (TreeNodeType 5 1 (js_str ''1.5'') (js_str ''leaf'') (Some (js_str ''d'')) [])"
      True True]
    data_update_sends_string [of
      "TreeNodeType 6 1 (js_str ''1.6'') (js_str ''leaf'') None []" 1 "[]"
      False "initialState (TreeNodeType 6 1 (js_str ''1.6'') (js_str ''leaf'') None [])"
      True True]
  by simp

section \<open>Properties of the tree identifier\<close>

lemma two_powi_less_cancel: "(2::rat) powi m < 2 powi n \<Longrightarrow> m < n"
proof (rule ccontr)
  assume a: "(2::rat) powi m < 2 powi n" and "\<not> m < n"
  then have "n \<le> m" by simp
  then have "(2::rat) powi n \<le> 2 powi m" by (rule power_int_increasing) simp
  with a show False by simp
qed

lemma bitlen_powi_bounds:
  assumes "0 < p"
  shows "(2::rat) powi (bitlen p - 1) \<le> of_int p" and "of_int p < (2::rat) powi (bitlen p)"
proof -
  from bitlen_bounds [OF assms]
  have lo: "2 ^ nat (bitlen p - 1) \<le> p" and hi: "p < 2 ^ nat (bitlen p)" by simp_all
  have b1: "1 \<le> bitlen p" using assms bitlen_eq_zero_iff [of p] bitlen_nonneg [of p] by linarith
  from lo have "(of_int (2 ^ nat (bitlen p - 1)) :: rat) \<le> of_int p"
    by (simp only: of_int_le_iff)
  with b1 show "(2::rat) powi (bitlen p - 1) \<le> of_int p"
    by (simp add: power_int_def)
  from hi have "(of_int p :: rat) < of_int (2 ^ nat (bitlen p))"
    by (simp only: of_int_less_iff)
  with b1 show "of_int p < (2::rat) powi (bitlen p)"
    by (simp add: power_int_def)
qed

lemma binade_bounds:
  assumes "0 < x"
  shows "2 powi (binade x) \<le> x" and "x < 2 powi (binade x + 1)"
proof -
  obtain p q where pq: "quotient_of x = (p, q)" by force
  then have q: "0 < q" by (rule quotient_of_denom_pos)
  from pq have x: "x = of_int p / of_int q" by (rule quotient_of_div)
  with assms q have p: "0 < p" by (simp add: zero_less_divide_iff)
  define d where "d = bitlen p - bitlen q"
  have qr: "(0::rat) < of_int q" using q by simp
  have "x < 2 powi (bitlen p) / 2 powi (bitlen q - 1)"
    unfolding x using bitlen_powi_bounds [OF p] bitlen_powi_bounds [OF q] qr p
    by (intro frac_less) simp_all
  also have "\<dots> = 2 powi (d + 1)"
    by (simp add: d_def power_int_diff [symmetric] algebra_simps)
  finally have hi: "x < 2 powi (d + 1)" .
  have "2 powi (bitlen p - 1) / 2 powi (bitlen q) \<le> x"
    unfolding x using bitlen_powi_bounds [OF p] bitlen_powi_bounds [OF q] qr p
    by (intro frac_le) simp_all
  moreover have "(2::rat) powi (bitlen p - 1) / 2 powi (bitlen q) = 2 powi (d - 1)"
    by (simp add: d_def power_int_diff [symmetric] algebra_simps)
  ultimately have lo: "2 powi (d - 1) \<le> x" by simp
  have b: "binade x = (if 2 powi d \<le> x then d else d - 1)"
    by (simp add: binade_def pq d_def Let_def)
  show "2 powi (binade x) \<le> x" using lo by (simp add: b)
  show "x < 2 powi (binade x + 1)" using hi by (auto simp: b not_le)
qed

lemma binade_unique:
  assumes "0 < x" "2 powi k \<le> x" "x < 2 powi (k + 1)"
  shows "binade x = k"
proof -
  from binade_bounds [OF assms(1)] assms(2,3)
  have "(2::rat) powi (binade x) < 2 powi (k + 1)" "(2::rat) powi k < 2 powi (binade x + 1)"
    by simp_all
  then have "binade x < k + 1" "k < binade x + 1" by (auto dest: two_powi_less_cancel)
  then show ?thesis by simp
qed

lemma roundTiesToEven_upper: "of_int (roundTiesToEven y) \<le> y + 1 / 2"
proof -
  have "of_int \<lfloor>y\<rfloor> \<le> y" by simp
  moreover have "y < of_int \<lfloor>y\<rfloor> + 1" by linarith
  ultimately show ?thesis
    by (simp add: roundTiesToEven_def Let_def; linarith)
qed

lemma roundTiesToEven_lower: "y - 1 / 2 \<le> of_int (roundTiesToEven y)"
proof -
  have "of_int \<lfloor>y\<rfloor> \<le> y" by simp
  moreover have "y < of_int \<lfloor>y\<rfloor> + 1" by linarith
  ultimately show ?thesis
    by (simp add: roundTiesToEven_def Let_def; linarith)
qed

lemma roundTiesToEven_le_int:
  assumes "y \<le> of_int n"
  shows "roundTiesToEven y \<le> n"
proof -
  from roundTiesToEven_upper [of y] assms
  have "(of_int (roundTiesToEven y) :: rat) < of_int (n + 1)" by simp
  then have "roundTiesToEven y < n + 1" by (simp only: of_int_less_iff)
  then show ?thesis by simp
qed

lemma roundTiesToEven_below_half:
  assumes "y < of_int n - 1 / 2"
  shows "roundTiesToEven y \<le> n - 1"
proof -
  from roundTiesToEven_upper [of y] assms
  have "(of_int (roundTiesToEven y) :: rat) < of_int n" by simp
  then have "roundTiesToEven y < n" by (simp only: of_int_less_iff)
  then show ?thesis by simp
qed

lemma roundTiesToEven_nonneg:
  assumes "0 \<le> y"
  shows "0 \<le> roundTiesToEven y"
proof -
  from roundTiesToEven_lower [of y] assms
  have "(of_int (- 1) :: rat) < of_int (roundTiesToEven y)" by simp
  then have "- 1 < roundTiesToEven y" by (simp only: of_int_less_iff)
  then show ?thesis by simp
qed

lemma ulp64_pos: "0 < ulp64 x"
  by (simp add: ulp64_def)

lemma fl64_nonneg: "0 \<le> fl64 x"
proof (cases "x \<le> 0")
  case True
  then show ?thesis by (simp add: fl64_def)
next
  case False
  then have "0 \<le> x / ulp64 x" using ulp64_pos [of x] by simp
  then have "0 \<le> roundTiesToEven (x / ulp64 x)" by (rule roundTiesToEven_nonneg)
  then show ?thesis using False ulp64_pos [of x] by (simp add: fl64_def)
qed

lemma fl64_below_two30:
  assumes "0 < x" "x < 2 ^ 30"
  shows "fl64 x \<le> 2 ^ 30"
proof -
  define j where "j = max (binade x - 52) (- 1074)"
  have u: "ulp64 x = 2 powi j" by (simp add: ulp64_def j_def)
  from binade_bounds(1) [OF assms(1)] assms(2)
  have "(2::rat) powi (binade x) < 2 powi 30" by simp
  then have "binade x < 30" by (rule two_powi_less_cancel)
  then have j: "j \<le> 30" by (simp add: j_def)
  have e: "(2::rat) powi (30 - j) = of_int (2 ^ nat (30 - j))"
    using j by (simp add: power_int_def)
  have "x / 2 powi j \<le> 2 powi 30 / 2 powi j"
    using assms(2) by (simp add: divide_right_mono)
  also have "\<dots> = 2 powi (30 - j)" by (simp add: power_int_diff)
  finally have "x / 2 powi j \<le> of_int (2 ^ nat (30 - j))" by (simp only: e)
  then have "roundTiesToEven (x / 2 powi j) \<le> 2 ^ nat (30 - j)"
    by (rule roundTiesToEven_le_int)
  then have "(of_int (roundTiesToEven (x / 2 powi j)) :: rat) \<le> 2 powi (30 - j)"
    by (simp only: e of_int_le_iff)
  then have "of_int (roundTiesToEven (x / 2 powi j)) * 2 powi j \<le> (2::rat) powi (30 - j) * 2 powi j"
    by (rule mult_right_mono) simp
  also have "(2::rat) powi (30 - j) * 2 powi j = 2 ^ 30"
    by (simp add: power_int_add [symmetric])
  finally show ?thesis using assms(1) by (simp add: fl64_def u)
qed

lemma fl64_top_binade:
  assumes "2 ^ 30 \<le> x" "x \<le> (1 - 1 / 2 ^ 53) * 2000000000"
  shows "fl64 x \<le> 2000000000 - 1 / 2 ^ 22"
proof -
  have pos: "0 < x" using assms(1) by simp
  have "binade x = 30"
  proof (rule binade_unique [OF pos])
    show "2 powi 30 \<le> x" using assms(1) by simp
    show "x < 2 powi (30 + 1)" using assms(2) by simp
  qed
  then have u: "ulp64 x = 1 / 2 ^ 22" by (simp add: ulp64_def power_int_def field_simps)
  have "x / (1 / 2 ^ 22) < of_int (2000000000 * 2 ^ 22) - 1 / 2"
    using assms(2) by simp
  then have "roundTiesToEven (x / (1 / 2 ^ 22)) \<le> 2000000000 * 2 ^ 22 - 1"
    by (rule roundTiesToEven_below_half)
  then have "(of_int (roundTiesToEven (x / (1 / 2 ^ 22))) :: rat) \<le> of_int (2000000000 * 2 ^ 22 - 1)"
    by (simp only: of_int_le_iff)
  then show ?thesis using pos by (simp add: fl64_def u field_simps)
qed

lemma isRandom_le:
  assumes "isRandom r"
  shows "r \<le> 1 - 1 / 2 ^ 53"
proof (cases "r < 1 / 2")
  case True
  then show ?thesis by simp
next
  case False
  from assms have r: "r < 1" "fl64 r = r" by (simp_all add: isRandom_def)
  have pos: "0 < r" using False by simp
  have "binade r = - 1"
  proof (rule binade_unique [OF pos])
    show "2 powi (- 1) \<le> r" using False by (simp add: power_int_def)
    show "r < 2 powi (- 1 + 1)" using r(1) by simp
  qed
  then have u: "ulp64 r = 1 / 2 ^ 53" by (simp add: ulp64_def power_int_def field_simps)
  define N where "N = roundTiesToEven (r / (1 / 2 ^ 53))"
  from r(2) pos have rN: "r = of_int N / 2 ^ 53" by (simp add: fl64_def u N_def)
  with r(1) have "(of_int N :: rat) < of_int (2 ^ 53)" by simp
  then have "N < 2 ^ 53" by (simp only: of_int_less_iff)
  then have "N \<le> 2 ^ 53 - 1" by simp
  then have "(of_int N :: rat) \<le> of_int (2 ^ 53 - 1)" by (simp only: of_int_le_iff)
  then show ?thesis by (subst rN) (simp add: field_simps)
qed

lemma newTreeId_range:
  assumes "isRandom r"
  shows "0 \<le> newTreeId r" and "newTreeId r < 2000000000"
proof -
  define x where "x = r * 2000000000"
  have x0: "0 \<le> x" using assms by (simp add: isRandom_def x_def)
  have xc: "x \<le> (1 - 1 / 2 ^ 53) * 2000000000"
    unfolding x_def using isRandom_le [OF assms] by (intro mult_right_mono) simp_all
  have "fl64 x < 2000000000"
  proof (cases "x < 2 ^ 30")
    case True
    show ?thesis
    proof (cases "x = 0")
      case True
      then show ?thesis by (simp add: fl64_def)
    next
      case False
      with x0 have "0 < x" by simp
      from fl64_below_two30 [OF this True] show ?thesis by simp
    qed
  next
    case False
    then have "2 ^ 30 \<le> x" by simp
    from fl64_top_binade [OF this xc] show ?thesis by simp
  qed
  then show "newTreeId r < 2000000000" unfolding newTreeId_def x_def [symmetric]
    by (simp add: floor_less_iff)
  show "0 \<le> newTreeId r" unfolding newTreeId_def by (simp add: fl64_nonneg)
qed

text \<open>
  C9. The tree id of every request \<open>createTree\<close> sends is \<open>newTreeId\<close> of the value of
  \<open>Math.random()\<close>, computed by the client before the request is sent, and it is an
  integer that is at least 0 and less than 2,000,000,000, hence within the range of a
  32-bit signed integer.
\<close>

theorem createTree_treeId_range:
  assumes "isRandom random"
    and "Fetch (POST_root treeId nm) \<in> set (fst (createTree random ok m))"
  shows "treeId = newTreeId random \<and> 0 \<le> treeId \<and> treeId < 2000000000
    \<and> treeId \<le> 2 ^ 31 - 1"
proof -
  from assms(2) have "treeId = newTreeId random"
    by (auto simp: createTree_def Let_def split: if_splits)
  with newTreeId_range [OF assms(1)] show ?thesis by simp
qed

theorem createTree_treeId_range_witness:
  "isRandom (9007199254740991 / 9007199254740992)
   \<and> Fetch (POST_root 1999999999 (js_str ''root'')) \<in> set (fst (createTree (9007199254740991 / 9007199254740992) True
        \<lparr>trees = [], loading = False, isUpdating = False, showCreateDialog = True,
         newTreeName = js_str ''root''\<rparr>))
   \<and> (1999999999 :: int) = newTreeId (9007199254740991 / 9007199254740992)
   \<and> (0 :: int) \<le> 1999999999 \<and> (1999999999 :: int) < 2000000000"
proof -
  have r: "isRandom (9007199254740991 / 9007199254740992)" by code_simp
  have n: "newTreeId (9007199254740991 / 9007199254740992) = 1999999999" by code_simp
  have f: "Fetch (POST_root 1999999999 (js_str ''root'')) \<in> set (fst (createTree (9007199254740991 / 9007199254740992) True
        \<lparr>trees = [], loading = False, isUpdating = False, showCreateDialog = True,
         newTreeName = js_str ''root''\<rparr>))"
    by (simp add: createTree_def n trim_def isWhiteSpace_def js_str_def
        isLeadingSurrogate_def isTrailingSurrogate_def)
  from createTree_treeId_range [OF r f] r f show ?thesis by simp
qed

end
